theory Spec2Isabelle
  imports Main "HOL-Library.Finite_Map" "HOL-Library.Multiset"
begin

section \<open>Configuration values\<close>

text \<open>
  The YAML decoder fills the \<^verbatim>\<open>interface{}\<close> slots of \<^verbatim>\<open>Config\<close> with dynamically typed
  values. \<open>VMap\<close> is Go's \<^verbatim>\<open>map[string]interface{}\<close> (a finite map, no order, unique
  keys), \<open>VList\<close> is \<^verbatim>\<open>[]interface{}\<close>, \<open>VStr\<close> is \<^verbatim>\<open>string\<close>, \<open>VNil\<close> is the nil
  interface. \<open>VOther\<close> stands for every remaining scalar (floats, timestamps), kept
  by its text; the renderers never look inside one. A mapping with a key that is not a
  string would decode to another map type, which \<^verbatim>\<open>json.Marshal\<close> in \<^verbatim>\<open>validateConfig\<close>
  rejects before any rendering, so it has no constructor.
\<close>

datatype val =
    VNil
  | VBool bool
  | VInt int
  | VOther string
  | VStr string
  | VList "val list"
  | VMap "(string, val) fmap"

text \<open>
  \<^verbatim>\<open>type Config struct\<close>. A nil map is \<open>None\<close> where the code tests for nil
  (\<^verbatim>\<open>Base\<close>, \<^verbatim>\<open>Collections\<close>). \<^verbatim>\<open>Pages\<close> is only ranged over and indexed, which a nil map
  and an empty map do alike, so it is a plain finite map.
\<close>

record Config =
  TemplateId :: string
  Base :: "(string, val) fmap option"
  Pages :: "(string, val) fmap"
  Collections :: "(string, val) fmap option"

text \<open>Go's map index \<^verbatim>\<open>m[k]\<close>: the zero value (nil interface) for a missing key.\<close>

definition index :: "(string, val) fmap \<Rightarrow> string \<Rightarrow> val" where
  "index m k = (case fmlookup m k of None \<Rightarrow> VNil | Some v \<Rightarrow> v)"

section \<open>The world outside the program\<close>

text \<open>
  Files on disk: path to content. Errors of the libraries are \<open>NotExist path\<close> (a file
  that is not there) or \<open>LibError msg\<close> (anything else).
\<close>

type_synonym fs = "string \<Rightarrow> string option"

datatype lib_error = NotExist string | LibError string

text \<open>A parsed template set: the files read, in order, each with its source text.\<close>

type_synonym tmpl = "(string \<times> string) list"

text \<open>
  The library functions the program calls are parameters:
  \<^item> \<open>Join\<close>: \<^verbatim>\<open>filepath.Join\<close> of two elements;
  \<^item> \<open>Parse\<close>: \<^verbatim>\<open>template.Parse\<close> on a source text, the error if it is rejected;
  \<^item> \<open>Execute\<close>, \<open>ExecuteTemplate\<close>: the bytes written to the writer and the error, if any
    (html/template writes as it goes, so bytes may be written before an error);
  \<^item> \<open>CreateErr\<close>: the error of opening a path for writing (\<^verbatim>\<open>os.Create\<close>, \<^verbatim>\<open>os.WriteFile\<close>),
    taken to depend on the path alone;
  \<^item> \<open>StatNotExist\<close>: \<^verbatim>\<open>os.IsNotExist\<close> of the error of \<^verbatim>\<open>os.Stat\<close>;
  \<^item> \<open>WalkEntries\<close>: the calls \<^verbatim>\<open>filepath.WalkDir\<close> makes for a root, in order, each with
    the path, whether it is a directory, and the error handed to the callback;
  \<^item> \<open>Rel\<close>: \<^verbatim>\<open>filepath.Rel\<close>; \<open>MkdirAllErr\<close>: the error of \<^verbatim>\<open>os.MkdirAll\<close>;
  \<^item> \<open>Inside\<close>: whether a path lies in the tree \<^verbatim>\<open>os.RemoveAll\<close> removes.
\<close>

record env =
  Join :: "string \<Rightarrow> string \<Rightarrow> string"
  Parse :: "string \<Rightarrow> lib_error option"
  Execute :: "tmpl \<Rightarrow> val \<Rightarrow> string \<times> lib_error option"
  ExecuteTemplate :: "tmpl \<Rightarrow> string \<Rightarrow> val \<Rightarrow> string \<times> lib_error option"
  CreateErr :: "string \<Rightarrow> lib_error option"
  StatNotExist :: "string \<Rightarrow> bool"
  WalkEntries :: "string \<Rightarrow> (string \<times> bool \<times> lib_error option) list"
  Rel :: "string \<Rightarrow> string \<Rightarrow> lib_error + string"
  MkdirAllErr :: "string \<Rightarrow> lib_error option"
  Inside :: "string \<Rightarrow> string \<Rightarrow> bool"

text \<open>
  \<^verbatim>\<open>template.ParseFiles\<close>: read each file in turn and parse it; the first file that
  cannot be read or parsed is the error. No file at all is an error too.
\<close>

fun parseFiles :: "env \<Rightarrow> fs \<Rightarrow> string list \<Rightarrow> lib_error + tmpl" where
  "parseFiles E fs [] = Inr []"
| "parseFiles E fs (filename # filenames) =
     (case fs filename of
        None \<Rightarrow> Inl (NotExist filename)
      | Some s \<Rightarrow>
          (case Parse E s of
             Some err \<Rightarrow> Inl err
           | None \<Rightarrow>
               (case parseFiles E fs filenames of
                  Inl err \<Rightarrow> Inl err
                | Inr t \<Rightarrow> Inr ((filename, s) # t))))"

definition ParseFiles :: "env \<Rightarrow> fs \<Rightarrow> string list \<Rightarrow> lib_error + tmpl" where
  "ParseFiles E fs filenames =
     (if filenames = [] then Inl (LibError ''html/template: no files named in call to ParseFiles'')
      else parseFiles E fs filenames)"

text \<open>\<^verbatim>\<open>os.Create\<close> leaves an empty file; a write to the open file appends to it.\<close>

definition create_file :: "fs \<Rightarrow> string \<Rightarrow> fs" where
  "create_file fs path = fs(path \<mapsto> [])"

definition write_file :: "fs \<Rightarrow> string \<Rightarrow> string \<Rightarrow> fs" where
  "write_file fs path bytes = fs(path \<mapsto> (case fs path of None \<Rightarrow> bytes | Some old \<Rightarrow> old @ bytes))"

section \<open>Results\<close>

text \<open>
  The \<^verbatim>\<open>fmt.Errorf\<close> values of the two renderers, by format string, and the three ways
  a renderer ends: it returns nil, it returns an error, or a failed type assertion
  panics.
\<close>

datatype error =
    ErrParsePage string lib_error
  | ErrCreate string lib_error
  | ErrExecPage string lib_error
  | ErrParseCollection string lib_error
  | ErrExecItem string lib_error

datatype outcome = NoError | Failed error | Panicked

section \<open>generatePages\<close>

text \<open>
  The value handed to the template engine for a page (the two branches of
  \<^verbatim>\<open>if config.Base != nil\<close> in \<^verbatim>\<open>generatePages\<close>): with a base, a fresh map holding
  \<^verbatim>\<open>"base"\<close>, into which every entry of the page's context is stored when that context is
  a \<^verbatim>\<open>map[string]interface{}\<close>; without a base, the page's value itself.
\<close>

definition pageContext :: "(string, val) fmap option \<Rightarrow> val \<Rightarrow> val" where
  "pageContext base ctx =
     (case base of
        Some b \<Rightarrow>
          (let data = fmupd ''base'' (VMap b) fmempty
           in VMap (case ctx of VMap pageCtx \<Rightarrow> data ++\<^sub>f pageCtx | _ \<Rightarrow> data))
      | None \<Rightarrow> ctx)"

definition execPage :: "env \<Rightarrow> (string, val) fmap option \<Rightarrow> tmpl \<Rightarrow> val \<Rightarrow> string \<times> lib_error option" where
  "execPage E base t ctx =
     (if base \<noteq> None then ExecuteTemplate E t ''base.html'' (pageContext base ctx)
      else Execute E t (pageContext base ctx))"

text \<open>The template files parsed for a name, and the output path of a page.\<close>

definition templateFiles :: "env \<Rightarrow> Config \<Rightarrow> string \<Rightarrow> string \<Rightarrow> string list" where
  "templateFiles E config templateDir name =
     (let templatePath = Join E templateDir (name @ ''.html'')
      in if Base config \<noteq> None then [Join E templateDir ''base.html'', templatePath]
         else [templatePath])"

definition pageOutputFile :: "env \<Rightarrow> string \<Rightarrow> string \<Rightarrow> string" where
  "pageOutputFile E outputDir pageName = Join E outputDir (pageName @ ''.html'')"

text \<open>One turn of the loop over \<^verbatim>\<open>config.Pages\<close>.\<close>

definition renderPage :: "env \<Rightarrow> Config \<Rightarrow> string \<Rightarrow> string \<Rightarrow> string \<Rightarrow> fs \<Rightarrow> outcome \<times> fs" where
  "renderPage E config templateDir outputDir pageName fs =
     (case ParseFiles E fs (templateFiles E config templateDir pageName) of
        Inl err \<Rightarrow> (Failed (ErrParsePage pageName err), fs)
      | Inr t \<Rightarrow>
          (let outputFile = pageOutputFile E outputDir pageName
           in case CreateErr E outputFile of
                Some err \<Rightarrow> (Failed (ErrCreate outputFile err), fs)
              | None \<Rightarrow>
                  (let r = execPage E (Base config) t (index (Pages config) pageName);
                       fs' = write_file (create_file fs outputFile) outputFile (fst r)
                   in case snd r of
                        Some err \<Rightarrow> (Failed (ErrExecPage pageName err), fs')
                      | None \<Rightarrow> (NoError, fs'))))"

text \<open>
  \<^verbatim>\<open>for pageName := range config.Pages\<close>: the order in which Go enumerates the map is
  not fixed, so it is an argument, the list of page names in the order of this run.
\<close>

fun generatePages :: "env \<Rightarrow> Config \<Rightarrow> string \<Rightarrow> string \<Rightarrow> string list \<Rightarrow> fs \<Rightarrow> outcome \<times> fs" where
  "generatePages E config templateDir outputDir [] fs = (NoError, fs)"
| "generatePages E config templateDir outputDir (pageName # rest) fs =
     (case renderPage E config templateDir outputDir pageName fs of
        (NoError, fs') \<Rightarrow> generatePages E config templateDir outputDir rest fs'
      | r \<Rightarrow> r)"

text \<open>An enumeration of a map: every key once.\<close>

definition enumerates :: "string list \<Rightarrow> (string, val) fmap \<Rightarrow> bool" where
  "enumerates ks m \<longleftrightarrow> distinct ks \<and> fset_of_list ks = fmdom m"

section \<open>generateCollections\<close>

text \<open>
  The value handed to the template engine for an item, as \<^verbatim>\<open>generateCollections\<close> builds
  it.
\<close>

definition itemContext :: "(string, val) fmap option \<Rightarrow> val \<Rightarrow> val" where
  "itemContext base item =
     (case base of
        None \<Rightarrow> item
      | Some b \<Rightarrow>
          (let data = fmupd ''base'' (VMap b) fmempty
           in case item of
                VMap pageCtx \<Rightarrow> VMap (data ++\<^sub>f pageCtx)
              | _ \<Rightarrow> VMap data))"

definition execItem :: "env \<Rightarrow> (string, val) fmap option \<Rightarrow> tmpl \<Rightarrow> val \<Rightarrow> string \<times> lib_error option" where
  "execItem E base t item =
     (if base \<noteq> None then ExecuteTemplate E t ''base.html'' (itemContext base item)
      else Execute E t (itemContext base item))"

text \<open>
  The loop over the items of one collection. \<^verbatim>\<open>item.(map[string]interface{})\<close> has no
  \<^verbatim>\<open>ok\<close> result there, so it panics on an item that is not such a map; the \<^verbatim>\<open>ok\<close> of that
  line is the one of the map index.
\<close>

fun renderItems :: "env \<Rightarrow> (string, val) fmap option \<Rightarrow> string \<Rightarrow> tmpl \<Rightarrow> val list \<Rightarrow> fs \<Rightarrow> outcome \<times> fs" where
  "renderItems E base outputDir t [] fs = (NoError, fs)"
| "renderItems E base outputDir t (item # rest) fs =
     (case item of
        VMap m \<Rightarrow>
          (case fmlookup m ''output_file'' of
             None \<Rightarrow> renderItems E base outputDir t rest fs
           | Some (VStr outputFileName) \<Rightarrow>
               (let outputPath = Join E outputDir outputFileName
                in case CreateErr E outputPath of
                     Some err \<Rightarrow> (Failed (ErrCreate outputPath err), fs)
                   | None \<Rightarrow>
                       (let r = execItem E base t item;
                            fs' = write_file (create_file fs outputPath) outputPath (fst r)
                        in case snd r of
                             Some err \<Rightarrow> (Failed (ErrExecItem outputFileName err), fs')
                           | None \<Rightarrow> renderItems E base outputDir t rest fs'))
           | Some _ \<Rightarrow> renderItems E base outputDir t rest fs)
      | _ \<Rightarrow> (Panicked, fs))"

text \<open>
  One turn of the loop over \<^verbatim>\<open>config.Collections\<close>. The first type assertion of
  \<^verbatim>\<open>collectionData.(map[string]interface{})["items"].([]interface{})\<close> has no \<^verbatim>\<open>ok\<close> result
  and panics; the \<^verbatim>\<open>ok\<close> belongs to the second one.
\<close>

definition renderCollection :: "env \<Rightarrow> Config \<Rightarrow> string \<Rightarrow> string \<Rightarrow> string \<Rightarrow> val \<Rightarrow> fs \<Rightarrow> outcome \<times> fs" where
  "renderCollection E config templateDir outputDir collectionName collectionData fs =
     (case collectionData of
        VMap m \<Rightarrow>
          (case index m ''items'' of
             VList itemsList \<Rightarrow>
               (case ParseFiles E fs (templateFiles E config templateDir collectionName) of
                  Inl err \<Rightarrow> (Failed (ErrParseCollection collectionName err), fs)
                | Inr t \<Rightarrow> renderItems E (Base config) outputDir t itemsList fs)
           | _ \<Rightarrow> (NoError, fs))
      | _ \<Rightarrow> (Panicked, fs))"

fun collectionsLoop :: "env \<Rightarrow> Config \<Rightarrow> string \<Rightarrow> string \<Rightarrow> (string, val) fmap \<Rightarrow> string list \<Rightarrow> fs \<Rightarrow> outcome \<times> fs" where
  "collectionsLoop E config templateDir outputDir cs [] fs = (NoError, fs)"
| "collectionsLoop E config templateDir outputDir cs (collectionName # rest) fs =
     (case renderCollection E config templateDir outputDir collectionName (index cs collectionName) fs of
        (NoError, fs') \<Rightarrow> collectionsLoop E config templateDir outputDir cs rest fs'
      | r \<Rightarrow> r)"

text \<open>As for the pages, the enumeration order of \<^verbatim>\<open>config.Collections\<close> is an argument.\<close>

definition generateCollections :: "env \<Rightarrow> Config \<Rightarrow> string \<Rightarrow> string \<Rightarrow> string list \<Rightarrow> fs \<Rightarrow> outcome \<times> fs" where
  "generateCollections E config templateDir outputDir order fs =
     (case Collections config of
        None \<Rightarrow> (NoError, fs)
      | Some cs \<Rightarrow> collectionsLoop E config templateDir outputDir cs order fs)"

section \<open>copyAssets and main\<close>

text \<open>
  \<^verbatim>\<open>filepath.WalkDir\<close> with the callback of \<^verbatim>\<open>copyAssets\<close>: the walk stops at the first
  error the callback returns and returns it.
\<close>

fun walkDir :: "env \<Rightarrow> string \<Rightarrow> string \<Rightarrow> (string \<times> bool \<times> lib_error option) list \<Rightarrow> fs \<Rightarrow> lib_error option \<times> fs" where
  "walkDir E srcFolder dstFolder [] fs = (None, fs)"
| "walkDir E srcFolder dstFolder ((path, isDir, err) # rest) fs =
     (case err of
        Some e \<Rightarrow> (Some e, fs)
      | None \<Rightarrow>
          (case Rel E srcFolder path of
             Inl e \<Rightarrow> (Some e, fs)
           | Inr relPath \<Rightarrow>
               (let dstPath = Join E dstFolder relPath
                in if isDir then
                     (case MkdirAllErr E dstPath of
                        Some e \<Rightarrow> (Some e, fs)
                      | None \<Rightarrow> walkDir E srcFolder dstFolder rest fs)
                   else
                     (case fs path of
                        None \<Rightarrow> (Some (NotExist path), fs)
                      | Some data \<Rightarrow>
                          (case CreateErr E dstPath of
                             Some e \<Rightarrow> (Some e, fs)
                           | None \<Rightarrow> walkDir E srcFolder dstFolder rest (fs(dstPath \<mapsto> data)))))))"

text \<open>
  \<^verbatim>\<open>copyAssets\<close>: the only asset folder is \<^verbatim>\<open>"assets"\<close>. The error of the walk decides
  whether \<^verbatim>\<open>"Copied folder"\<close> is logged and is then dropped; the function ends in
  \<^verbatim>\<open>return nil\<close>.
\<close>

definition copyAssets :: "env \<Rightarrow> string \<Rightarrow> string \<Rightarrow> fs \<Rightarrow> lib_error option \<times> fs" where
  "copyAssets E templateDir outputDir fs =
     (let srcFolder = Join E templateDir ''assets''
      in if StatNotExist E srcFolder then (None, fs)
         else
           (let dstFolder = Join E outputDir ''assets'';
                r = walkDir E srcFolder dstFolder (WalkEntries E srcFolder) fs
            in (None, snd r)))"

text \<open>
  \<^verbatim>\<open>main\<close> from the creation of the output directory on, with the configuration read and
  validated and the template downloaded to \<open>templateDir\<close>. \<^verbatim>\<open>log.Fatalf\<close> exits at
  once, without the deferred \<^verbatim>\<open>os.RemoveAll(templateDir)\<close>; a return and a panic run it.
\<close>

datatype fatal =
    FatalOutputDir lib_error
  | FatalCopyAssets lib_error
  | FatalPages error
  | FatalCollections error

datatype exit = Success | Fatal fatal | Crash

definition RemoveAll :: "env \<Rightarrow> string \<Rightarrow> fs \<Rightarrow> fs" where
  "RemoveAll E dir fs = (\<lambda>path. if Inside E dir path then None else fs path)"

definition main_generate :: "env \<Rightarrow> Config \<Rightarrow> string \<Rightarrow> string \<Rightarrow> string list \<Rightarrow> string list \<Rightarrow> fs \<Rightarrow> exit \<times> fs" where
  "main_generate E config templateDir outputDir pageOrder collectionOrder fs =
     (case MkdirAllErr E outputDir of
        Some err \<Rightarrow> (Fatal (FatalOutputDir err), fs)
      | None \<Rightarrow>
          (case copyAssets E (templateDir @ ''/pages'') outputDir fs of
             (Some err, fs1) \<Rightarrow> (Fatal (FatalCopyAssets err), fs1)
           | (None, fs1) \<Rightarrow>
               (case generatePages E config (templateDir @ ''/pages'') outputDir pageOrder fs1 of
                  (Failed err, fs2) \<Rightarrow> (Fatal (FatalPages err), fs2)
                | (Panicked, fs2) \<Rightarrow> (Crash, RemoveAll E templateDir fs2)
                | (NoError, fs2) \<Rightarrow>
                    (case generateCollections E config (templateDir @ ''/pages'') outputDir
                            collectionOrder fs2 of
                       (Failed err, fs3) \<Rightarrow> (Fatal (FatalCollections err), fs3)
                     | (Panicked, fs3) \<Rightarrow> (Crash, RemoveAll E templateDir fs3)
                     | (NoError, fs3) \<Rightarrow> (Success, RemoveAll E templateDir fs3)))))"

section \<open>A small concrete world\<close>

text \<open>
  A toy world for concrete runs: paths are joined with a slash, every source parses,
  and executing a template set writes its source texts followed by the \<^verbatim>\<open>title\<close> of the
  data; every file and directory can be created; there is no assets folder.
\<close>

definition title_of :: "val \<Rightarrow> string" where
  "title_of v =
     (case v of
        VMap m \<Rightarrow> (case fmlookup m ''title'' of Some (VStr s) \<Rightarrow> s | _ \<Rightarrow> [])
      | _ \<Rightarrow> [])"

definition env0 :: env where
  "env0 =
     \<lparr>Join = (\<lambda>a b. if b = ''.'' then a else a @ ''/'' @ b),
      Parse = (\<lambda>s. None),
      Execute = (\<lambda>t v. (concat (map snd t) @ title_of v, None)),
      ExecuteTemplate = (\<lambda>t n v. (concat (map snd t) @ title_of v, None)),
      CreateErr = (\<lambda>p. None),
      StatNotExist = (\<lambda>p. True),
      WalkEntries = (\<lambda>p. []),
      Rel = (\<lambda>a b. Inr (if a = b then ''.'' else drop (length a + 1) b)),
      MkdirAllErr = (\<lambda>p. None),
      Inside = (\<lambda>d p. False)\<rparr>"

section \<open>Notions used to state the properties\<close>

text \<open>Whether a value is a \<^verbatim>\<open>map[string]interface{}\<close>.\<close>

definition isMapping :: "val \<Rightarrow> bool" where
  "isMapping v = (case v of VMap m \<Rightarrow> True | _ \<Rightarrow> False)"

text \<open>
  The error \<^verbatim>\<open>ParseFiles\<close> returns for a page whose own template file, or \<^verbatim>\<open>base.html\<close>,
  is not on disk: \<^verbatim>\<open>base.html\<close> is read first, so a base that is there but does not parse
  is reported before the missing page template.
\<close>

definition parseError :: "env \<Rightarrow> Config \<Rightarrow> string \<Rightarrow> string \<Rightarrow> fs \<Rightarrow> lib_error" where
  "parseError E config templateDir name fs =
     (let templatePath = Join E templateDir (name @ ''.html'');
          basePath = Join E templateDir ''base.html''
      in if Base config \<noteq> None then
           (case fs basePath of
              None \<Rightarrow> NotExist basePath
            | Some s \<Rightarrow> (case Parse E s of Some e \<Rightarrow> e | None \<Rightarrow> NotExist templatePath))
         else NotExist templatePath)"

text \<open>
  The output paths a collection writes when all its items are rendered: one for each
  item that is a map with a string \<^verbatim>\<open>output_file\<close>.
\<close>

fun itemOutputPaths :: "env \<Rightarrow> string \<Rightarrow> val list \<Rightarrow> string list" where
  "itemOutputPaths E outputDir [] = []"
| "itemOutputPaths E outputDir (item # rest) =
     (case item of
        VMap m \<Rightarrow>
          (case fmlookup m ''output_file'' of
             Some (VStr outputFileName) \<Rightarrow>
               Join E outputDir outputFileName # itemOutputPaths E outputDir rest
           | _ \<Rightarrow> itemOutputPaths E outputDir rest)
      | _ \<Rightarrow> itemOutputPaths E outputDir rest)"

definition collectionOutputPaths :: "env \<Rightarrow> string \<Rightarrow> val \<Rightarrow> string list" where
  "collectionOutputPaths E outputDir collectionData =
     (case collectionData of
        VMap m \<Rightarrow>
          (case index m ''items'' of
             VList itemsList \<Rightarrow> itemOutputPaths E outputDir itemsList
           | _ \<Rightarrow> [])
      | _ \<Rightarrow> [])"

text \<open>The collections of a configuration, a nil map read as the empty one.\<close>

definition collections_of :: "Config \<Rightarrow> (string, val) fmap" where
  "collections_of config = (case Collections config of None \<Rightarrow> fmempty | Some cs \<Rightarrow> cs)"

text \<open>
  The shape both loops share: run a step for each key in turn, stop at the first step
  that does not return nil.
\<close>

fun steps :: "(string \<Rightarrow> fs \<Rightarrow> outcome \<times> fs) \<Rightarrow> string list \<Rightarrow> fs \<Rightarrow> outcome \<times> fs" where
  "steps f [] fs = (NoError, fs)"
| "steps f (k # ks) fs = (case f k fs of (NoError, fs') \<Rightarrow> steps f ks fs' | r \<Rightarrow> r)"

section \<open>Concrete configurations and disks\<close>

text \<open>
  A world with an assets folder holding one file, where \<^verbatim>\<open>out/assets\<close> cannot be made a
  directory (a regular file of that name is in the way).
\<close>

definition env_assets :: env where
  "env_assets = env0
     \<lparr>StatNotExist := (\<lambda>p. False),
      WalkEntries := (\<lambda>p. [(''t/pages/assets'', True, None),
                            (''t/pages/assets/logo.png'', False, None)]),
      MkdirAllErr := (\<lambda>p. if p = ''out/assets'' then Some (LibError ''not a directory'')
                           else None)\<rparr>"

text \<open>
  A world whose \<^verbatim>\<open>Execute\<close> fails on data without a \<^verbatim>\<open>title\<close>, after the template text
  has been written.
\<close>

definition env_execfail :: env where
  "env_execfail = env0
     \<lparr>Execute := (\<lambda>t v. if title_of v = [] then (concat (map snd t), Some (LibError ''no title''))
                          else (concat (map snd t) @ title_of v, None))\<rparr>"

definition cfg_index :: Config where
  "cfg_index =
     \<lparr>TemplateId = ''0001'', Base = None,
      Pages = fmap_of_list [(''index'', VMap (fmap_of_list [(''title'', VStr ''Hi'')]))],
      Collections = None\<rparr>"

definition fs_assets :: fs where
  "fs_assets = [''t/pages/index.html'' \<mapsto> ''<h1>'', ''t/pages/assets/logo.png'' \<mapsto> ''PNG'']"

definition cfg_scalar_collection :: Config where
  "cfg_scalar_collection =
     \<lparr>TemplateId = ''0001'', Base = None, Pages = fmempty,
      Collections = Some (fmap_of_list [(''posts'', VStr ''none'')])\<rparr>"

definition post1 :: val where
  "post1 = VMap (fmap_of_list [(''output_file'', VStr ''post1.html''), (''title'', VStr ''A'')])"

definition post2 :: val where
  "post2 = VMap (fmap_of_list [(''title'', VStr ''B'')])"

definition post3 :: val where
  "post3 = VMap (fmap_of_list [(''output_file'', VStr ''post1.html''), (''title'', VStr ''C'')])"

definition post4 :: val where
  "post4 = VMap (fmap_of_list [(''output_file'', VStr ''post4.html'')])"

definition news1 :: val where
  "news1 = VMap (fmap_of_list [(''output_file'', VStr ''news1.html''), (''title'', VStr ''N'')])"

definition cfg_scalar_item :: Config where
  "cfg_scalar_item =
     \<lparr>TemplateId = ''0001'', Base = None, Pages = fmempty,
      Collections = Some (fmap_of_list
        [(''posts'', VMap (fmap_of_list [(''items'', VList [VStr ''draft'', post1])]))])\<rparr>"

definition fs_posts :: fs where
  "fs_posts = [''t/pages/index.html'' \<mapsto> ''<h1>'', ''t/pages/posts.html'' \<mapsto> ''<p>'']"

definition cfg_three :: Config where
  "cfg_three =
     \<lparr>TemplateId = ''0001'', Base = None,
      Pages = fmap_of_list [(''index'', VMap (fmap_of_list [(''title'', VStr ''Hi'')])),
                            (''about'', VMap (fmap_of_list [(''name'', VStr ''Me'')])),
                            (''contact'', VMap (fmap_of_list [(''title'', VStr ''Mail'')]))],
      Collections = None\<rparr>"

definition fs_two :: fs where
  "fs_two = [''t/pages/index.html'' \<mapsto> ''<h1>'', ''t/pages/about.html'' \<mapsto> ''<h2>'']"

definition fs_one :: fs where
  "fs_one = [''t/pages/index.html'' \<mapsto> ''<h1>'']"

definition posts_items :: "(string, val) fmap" where
  "posts_items = fmap_of_list [(''items'', VList [post1, post4, post3])]"

definition posts_only :: "(string, val) fmap" where
  "posts_only = fmap_of_list [(''posts'', VMap posts_items)]"

definition cfg_posts :: Config where
  "cfg_posts =
     \<lparr>TemplateId = ''0001'', Base = None,
      Pages = fmap_of_list [(''index'', VMap (fmap_of_list [(''title'', VStr ''Hi'')]))],
      Collections = Some posts_only\<rparr>"

definition cfg_clash :: Config where
  "cfg_clash =
     \<lparr>TemplateId = ''0001'', Base = None, Pages = fmempty,
      Collections = Some (fmap_of_list
        [(''news'', VMap (fmap_of_list [(''items'',
            VList [VMap (fmap_of_list [(''output_file'', VStr ''latest.html''),
                                       (''title'', VStr ''N'')])])])),
         (''posts'', VMap (fmap_of_list [(''items'',
            VList [VMap (fmap_of_list [(''output_file'', VStr ''latest.html''),
                                       (''title'', VStr ''P'')])])]))])\<rparr>"

definition fs_clash :: fs where
  "fs_clash = [''t/pages/news.html'' \<mapsto> ''<n>'', ''t/pages/posts.html'' \<mapsto> ''<p>'']"

definition cfg_site :: Config where
  "cfg_site =
     \<lparr>TemplateId = ''0001'',
      Base = Some (fmap_of_list [(''site'', VStr ''MySite'')]),
      Pages = fmap_of_list [(''index'', VMap (fmap_of_list [(''title'', VStr ''Hi'')])),
                            (''about'', VStr ''plain'')],
      Collections = Some (fmap_of_list
        [(''posts'', VMap (fmap_of_list [(''items'', VList [post1, post2, post3])])),
         (''news'', VMap (fmap_of_list [(''items'', VList [news1])])),
         (''drafts'', VMap (fmap_of_list [(''count'', VInt 0)]))])\<rparr>"

definition fs_site :: fs where
  "fs_site = [''t/pages/base.html'' \<mapsto> ''<b>'', ''t/pages/index.html'' \<mapsto> ''<i>'',
              ''t/pages/about.html'' \<mapsto> ''<a>'', ''t/pages/posts.html'' \<mapsto> ''<p>'',
              ''t/pages/news.html'' \<mapsto> ''<n>'']"

lemmas run_defs =
  renderPage_def renderCollection_def generateCollections_def ParseFiles_def templateFiles_def
  pageOutputFile_def execPage_def execItem_def pageContext_def itemContext_def index_def
  fmlookup_of_list title_of_def create_file_def write_file_def copyAssets_def main_generate_def
  RemoveAll_def

lemmas item_defs = post1_def post2_def post3_def post4_def news1_def posts_items_def posts_only_def

lemmas site_defs = cfg_site_def fs_site_def post1_def post2_def post3_def news1_def env0_def

section \<open>Properties of the render context\<close>

lemma pageContext_base_map:
  "pageContext (Some b) (VMap ctx) = VMap (fmupd ''base'' (VMap b) fmempty ++\<^sub>f ctx)"
  by (simp add: pageContext_def)

text \<open>
  The loop \<^verbatim>\<open>for k, v := range pageCtx { data[k] = v }\<close> along any enumeration of
  \<open>pageCtx\<close> gives the map sum used in \<open>pageContext\<close>.
\<close>

lemma range_store_is_add:
  "set ks \<subseteq> fmdom' ctx \<Longrightarrow>
     fold (\<lambda>k d. fmupd k (index ctx k) d) ks data = data ++\<^sub>f fmrestrict_set (set ks) ctx"
proof (induction ks arbitrary: data)
  case Nil
  then show ?case by simp
next
  case (Cons k ks)
  have "fmupd k (index ctx k) data ++\<^sub>f fmrestrict_set (set ks) ctx
          = data ++\<^sub>f fmrestrict_set (insert k (set ks)) ctx"
  proof (rule fmap_ext)
    fix x
    from Cons.prems obtain v where "fmlookup ctx k = Some v"
      by (auto simp: fmdom'_alt_def fmlookup_dom_iff)
    then show "fmlookup (fmupd k (index ctx k) data ++\<^sub>f fmrestrict_set (set ks) ctx) x
                 = fmlookup (data ++\<^sub>f fmrestrict_set (insert k (set ks)) ctx) x"
      by (auto simp: index_def fmlookup_dom_iff)
  qed
  with Cons show ?case by simp
qed

lemma range_store_all:
  assumes "enumerates ks ctx"
  shows "fold (\<lambda>k d. fmupd k (index ctx k) d) ks data = data ++\<^sub>f ctx"
proof -
  from assms have eq: "set ks = fmdom' ctx"
    by (metis enumerates_def fmdom'_alt_def fset_of_list.rep_eq)
  have "fmrestrict_set (fmdom' ctx) ctx = ctx"
    by (rule fmap_ext) (auto simp: fmdom'_notI)
  with range_store_is_add [of ks ctx data] eq show ?thesis by simp
qed

text \<open>
  C1. With a base and a page whose context is a mapping, the value handed to
  \<^verbatim>\<open>ExecuteTemplate\<close> is a map in which every key of the page context is bound to the page's
  value, and \<^verbatim>\<open>"base"\<close> is bound to the base map unless the page context has a key
  \<^verbatim>\<open>"base"\<close> of its own, which then wins; it has no other key.
\<close>

theorem page_context_overlay:
  "\<exists>data. execPage E (Some b) t (VMap ctx) = ExecuteTemplate E t ''base.html'' (VMap data)
        \<and> pageContext (Some b) (VMap ctx) = VMap data
        \<and> (\<forall>k. fmlookup data k =
              (case fmlookup ctx k of
                 Some v \<Rightarrow> Some v
               | None \<Rightarrow> if k = ''base'' then Some (VMap b) else None))"
proof -
  let ?data = "fmupd ''base'' (VMap b) fmempty ++\<^sub>f ctx"
  have "\<forall>k. fmlookup ?data k =
          (case fmlookup ctx k of
             Some v \<Rightarrow> Some v
           | None \<Rightarrow> if k = ''base'' then Some (VMap b) else None)"
    by (auto simp: fmlookup_dom_iff split: option.splits)
  then show ?thesis
    unfolding execPage_def pageContext_base_map by auto
qed

theorem page_context_overlay_witness:
  "\<exists>data. pageContext (Some (fmap_of_list [(''site'', VStr ''MySite'')]))
             (VMap (fmap_of_list [(''title'', VStr ''Hi''), (''base'', VStr ''mine'')])) = VMap data
        \<and> fmlookup data ''title'' = Some (VStr ''Hi'')
        \<and> fmlookup data ''base'' = Some (VStr ''mine'')
        \<and> fmlookup data ''site'' = None"
  using page_context_overlay
    [of env0 "fmap_of_list [(''site'', VStr ''MySite'')]" "[]"
        "fmap_of_list [(''title'', VStr ''Hi''), (''base'', VStr ''mine'')]"]
  by (auto simp: fmlookup_of_list)

text \<open>
  C2. Without a base there is no merge: the value handed to the engine is the page's own
  context value, whatever it is, and the page template is run by \<^verbatim>\<open>Execute\<close> on it.
\<close>

theorem page_context_identity_without_base:
  "Base config = None \<Longrightarrow>
     pageContext (Base config) ctx = ctx
     \<and> execPage E (Base config) t (index (Pages config) p) = Execute E t (index (Pages config) p)"
  by (simp add: pageContext_def execPage_def)

theorem page_context_identity_without_base_witness:
  "pageContext None (VList [VInt 1, VStr ''x'']) = VList [VInt 1, VStr ''x'']
   \<and> execPage env0 None [(''t/index.html'', ''<h1>'')] (VMap (fmap_of_list [(''title'', VStr ''Hi'')]))
       = (''<h1>Hi'', None)"
  using page_context_identity_without_base
    [of "\<lparr>TemplateId = ''0001'', Base = None,
          Pages = fmap_of_list [(''index'', VMap (fmap_of_list [(''title'', VStr ''Hi'')]))],
          Collections = None\<rparr>"
        "VList [VInt 1, VStr ''x'']" env0 "[(''t/index.html'', ''<h1>'')]" "''index''"]
  by (simp add: index_def fmlookup_of_list env0_def title_of_def)

text \<open>
  C3. With a base and a page context that is not a mapping, the value handed to
  \<^verbatim>\<open>ExecuteTemplate\<close> is the map whose only key is \<^verbatim>\<open>"base"\<close>, bound to the base map.
\<close>

theorem page_context_non_mapping:
  "\<not> isMapping ctx \<Longrightarrow>
     \<exists>data. execPage E (Some b) t ctx = ExecuteTemplate E t ''base.html'' (VMap data)
          \<and> pageContext (Some b) ctx = VMap data
          \<and> (\<forall>k. fmlookup data k = (if k = ''base'' then Some (VMap b) else None))"
  by (cases ctx) (simp_all add: isMapping_def pageContext_def execPage_def)

theorem page_context_non_mapping_witness:
  "\<not> isMapping (VList [VStr ''a''])
   \<and> (\<exists>data. pageContext (Some (fmap_of_list [(''site'', VStr ''MySite'')])) (VList [VStr ''a'']) = VMap data
          \<and> fmlookup data ''base'' = Some (VMap (fmap_of_list [(''site'', VStr ''MySite'')]))
          \<and> fmlookup data ''a'' = None)"
proof -
  have h: "\<not> isMapping (VList [VStr ''a''])"
    by (simp add: isMapping_def)
  from page_context_non_mapping [OF h, of env0 "fmap_of_list [(''site'', VStr ''MySite'')]" "[]"]
  show ?thesis using h by auto
qed

text \<open>
  C4. For every base (present or nil) and every context value, the collection renderer
  hands the engine the same value, through the same entry point, as the page renderer
  does.
\<close>

theorem item_context_eq_page_context:
  "itemContext base v = pageContext base v \<and> execItem E base t v = execPage E base t v"
proof -
  have ctx: "itemContext c v = pageContext c v" for c
    by (cases c; cases v) (simp_all add: itemContext_def pageContext_def)
  show ?thesis
    by (simp add: execItem_def execPage_def ctx)
qed

section \<open>Facts about the loops and about main\<close>

lemma write_after_create: "write_file (create_file fs path) path bytes = fs(path \<mapsto> bytes)"
  by (simp add: write_file_def create_file_def)

lemma generatePages_append:
  "generatePages E c td od (xs @ ys) fs =
     (case generatePages E c td od xs fs of
        (NoError, fs') \<Rightarrow> generatePages E c td od ys fs'
      | r \<Rightarrow> r)"
  by (induction xs arbitrary: fs) (auto split: prod.splits outcome.splits)

lemma renderItems_append:
  "renderItems E base od t (xs @ ys) fs =
     (case renderItems E base od t xs fs of
        (NoError, fs') \<Rightarrow> renderItems E base od t ys fs'
      | r \<Rightarrow> r)"
proof (induction xs arbitrary: fs)
  case Nil
  then show ?case by simp
next
  case (Cons x xs)
  then show ?case
    by (simp add: Let_def split: val.splits option.splits)
qed

lemma collectionsLoop_append:
  "collectionsLoop E c td od cs (xs @ ys) fs =
     (case collectionsLoop E c td od cs xs fs of
        (NoError, fs') \<Rightarrow> collectionsLoop E c td od cs ys fs'
      | r \<Rightarrow> r)"
  by (induction xs arbitrary: fs) (auto split: prod.splits outcome.splits)

text \<open>\<^verbatim>\<open>copyAssets\<close> has a single \<^verbatim>\<open>return\<close>, and it returns nil.\<close>

lemma copyAssets_returns_nil: "fst (copyAssets E td od fs) = None"
  by (simp add: copyAssets_def Let_def)

lemma main_generate_pages_failed:
  assumes "MkdirAllErr E outputDir = None"
    and "generatePages E config (templateDir @ ''/pages'') outputDir pageOrder
           (snd (copyAssets E (templateDir @ ''/pages'') outputDir fs)) = (Failed err, fs2)"
  shows "main_generate E config templateDir outputDir pageOrder collectionOrder fs
           = (Fatal (FatalPages err), fs2)"
proof (cases "copyAssets E (templateDir @ ''/pages'') outputDir fs")
  case (Pair e fs1)
  with copyAssets_returns_nil [of E "templateDir @ ''/pages''" outputDir fs] have "e = None"
    by simp
  with Pair assms show ?thesis
    by (simp add: main_generate_def)
qed

lemma main_generate_collections_failed:
  assumes "MkdirAllErr E outputDir = None"
    and "generatePages E config (templateDir @ ''/pages'') outputDir pageOrder
           (snd (copyAssets E (templateDir @ ''/pages'') outputDir fs)) = (NoError, fs2)"
    and "generateCollections E config (templateDir @ ''/pages'') outputDir collectionOrder fs2
           = (Failed err, fs3)"
  shows "main_generate E config templateDir outputDir pageOrder collectionOrder fs
           = (Fatal (FatalCollections err), fs3)"
proof (cases "copyAssets E (templateDir @ ''/pages'') outputDir fs")
  case (Pair e fs1)
  with copyAssets_returns_nil [of E "templateDir @ ''/pages''" outputDir fs] have "e = None"
    by simp
  with Pair assms show ?thesis
    by (simp add: main_generate_def)
qed

lemma main_generate_success_iff:
  "main_generate E config templateDir outputDir pageOrder collectionOrder fs = (Success, fs')
     \<longleftrightarrow> MkdirAllErr E outputDir = None
         \<and> (\<exists>fs2 fs3.
               generatePages E config (templateDir @ ''/pages'') outputDir pageOrder
                 (snd (copyAssets E (templateDir @ ''/pages'') outputDir fs)) = (NoError, fs2)
             \<and> generateCollections E config (templateDir @ ''/pages'') outputDir collectionOrder fs2
                 = (NoError, fs3)
             \<and> fs' = RemoveAll E templateDir fs3)"
proof (cases "copyAssets E (templateDir @ ''/pages'') outputDir fs")
  case (Pair e fs1)
  with copyAssets_returns_nil [of E "templateDir @ ''/pages''" outputDir fs] have "e = None"
    by simp
  with Pair show ?thesis
    by (auto simp: main_generate_def split: option.splits prod.splits outcome.splits)
qed

section \<open>Collections and items of the wrong shape\<close>

text \<open>
  A collection that is a mapping without a list under \<^verbatim>\<open>items\<close> is passed over: nothing
  is parsed, nothing is written, the loop goes on.
\<close>

lemma collection_without_items_skipped:
  "(\<forall>l. index m ''items'' \<noteq> VList l) \<Longrightarrow>
     renderCollection E config td od g (VMap m) fs = (NoError, fs)"
  by (cases "index m ''items''") (simp_all add: renderCollection_def)

text \<open>A collection that is no mapping at all makes the unchecked type assertion panic.\<close>

lemma collection_non_mapping_panics:
  "\<not> isMapping d \<Longrightarrow> renderCollection E config td od g d fs = (Panicked, fs)"
  by (cases d) (simp_all add: renderCollection_def isMapping_def)

text \<open>
  C5. The skip of a malformed collection misses a case: for the configuration
  \<^verbatim>\<open>collections: {posts: "none"}\<close>, whose collection is a scalar and so not a mapping
  with an \<^verbatim>\<open>items\<close> list, the collection renderer panics instead of passing the
  collection over, and the run crashes.
\<close>

theorem scalar_collection_panics:
  "generateCollections env0 cfg_scalar_collection ''t/pages'' ''out'' [''posts''] Map.empty
     = (Panicked, Map.empty)
   \<and> fst (main_generate env0 cfg_scalar_collection ''t'' ''out'' [] [''posts''] Map.empty) = Crash"
  by (simp add: run_defs cfg_scalar_collection_def env0_def)

text \<open>
  An item that is a mapping without \<^verbatim>\<open>output_file\<close>, or with one that is not a string,
  is passed over: the rest of the items is rendered as if it were not there.
\<close>

lemma item_without_output_file_skipped:
  "(\<forall>n. fmlookup m ''output_file'' \<noteq> Some (VStr n)) \<Longrightarrow>
     renderItems E base od t (VMap m # rest) fs = renderItems E base od t rest fs"
  by (auto split: option.splits val.splits)

lemma item_non_mapping_panics:
  "\<not> isMapping item \<Longrightarrow> renderItems E base od t (item # rest) fs = (Panicked, fs)"
  by (cases item) (simp_all add: isMapping_def)

text \<open>
  C6. The skip of a malformed item misses a case: in the collection
  \<^verbatim>\<open>posts: {items: ["draft", {output_file: post1.html, title: A}]}\<close> the first item is a
  scalar, so it has no \<^verbatim>\<open>output_file\<close>; the renderer panics on it, and its sibling
  \<^verbatim>\<open>post1.html\<close>, which has a string \<^verbatim>\<open>output_file\<close>, is never written.
\<close>

theorem scalar_item_panics:
  "generateCollections env0 cfg_scalar_item ''t/pages'' ''out'' [''posts''] fs_posts
     = (Panicked, fs_posts)
   \<and> fs_posts ''out/post1.html'' = None
   \<and> fst (main_generate env0 cfg_scalar_item ''t'' ''out'' [] [''posts''] fs_posts) = Crash"
  by (simp add: run_defs cfg_scalar_item_def item_defs fs_posts_def env0_def)

section \<open>A missing template\<close>

lemma renderPage_missing:
  assumes "fs (Join E td (p @ ''.html'')) = None
           \<or> (Base config \<noteq> None \<and> fs (Join E td ''base.html'') = None)"
  shows "renderPage E config td od p fs = (Failed (ErrParsePage p (parseError E config td p fs)), fs)"
  using assms
  by (auto simp: renderPage_def ParseFiles_def templateFiles_def parseError_def Let_def
           split: option.splits sum.splits)

text \<open>
  C7, as stated, fails. Page \<^verbatim>\<open>contact\<close> is declared and its template is not on disk, yet
  the error of the run does not name it: when \<^verbatim>\<open>about\<close> is enumerated first and its
  execution fails, the run ends with the execution error of \<^verbatim>\<open>about\<close>, with
  \<^verbatim>\<open>out/about.html\<close> written; and when the template of \<^verbatim>\<open>about\<close> is missing as well, the
  error names \<^verbatim>\<open>about\<close>.
\<close>

theorem missing_template_counterexample:
  "fs_two ''t/pages/contact.html'' = None
   \<and> main_generate env_execfail cfg_three ''t'' ''out'' [''about'', ''contact'', ''index''] [] fs_two
       = (Fatal (FatalPages (ErrExecPage ''about'' (LibError ''no title''))),
          fs_two(''out/about.html'' \<mapsto> ''<h2>''))
   \<and> fs_one ''t/pages/contact.html'' = None
   \<and> main_generate env0 cfg_three ''t'' ''out'' [''about'', ''contact'', ''index''] [] fs_one
       = (Fatal (FatalPages (ErrParsePage ''about'' (NotExist ''t/pages/about.html''))), fs_one)"
  by (simp add: run_defs fs_two_def fs_one_def cfg_three_def env_execfail_def env0_def)

text \<open>
  C7, amended. When the loop over the pages reaches a page whose template file, or
  \<^verbatim>\<open>base.html\<close> when a base is configured, is not on disk, the pages enumerated before it
  having been rendered, \<^verbatim>\<open>generatePages\<close> returns the parse error naming that page (the
  file that is not there, unless \<^verbatim>\<open>base.html\<close> is there and does not parse), \<^verbatim>\<open>main\<close>
  exits fatally with it, and the disk is as the earlier pages left it: no later page is
  rendered.
\<close>

theorem missing_template_fails_fast:
  assumes "MkdirAllErr E outputDir = None"
    and "generatePages E config (templateDir @ ''/pages'') outputDir pre
           (snd (copyAssets E (templateDir @ ''/pages'') outputDir fs)) = (NoError, fs1)"
    and "fs1 (Join E (templateDir @ ''/pages'') (p @ ''.html'')) = None
         \<or> (Base config \<noteq> None \<and> fs1 (Join E (templateDir @ ''/pages'') ''base.html'') = None)"
  shows "generatePages E config (templateDir @ ''/pages'') outputDir (pre @ p # rest)
           (snd (copyAssets E (templateDir @ ''/pages'') outputDir fs))
           = (Failed (ErrParsePage p (parseError E config (templateDir @ ''/pages'') p fs1)), fs1)
         \<and> main_generate E config templateDir outputDir (pre @ p # rest) collectionOrder fs
           = (Fatal (FatalPages (ErrParsePage p (parseError E config (templateDir @ ''/pages'') p fs1))),
              fs1)"
proof -
  let ?td = "templateDir @ ''/pages''"
  let ?fs0 = "snd (copyAssets E ?td outputDir fs)"
  have gp: "generatePages E config ?td outputDir (pre @ p # rest) ?fs0
          = (Failed (ErrParsePage p (parseError E config ?td p fs1)), fs1)"
    using assms(2) renderPage_missing [OF assms(3), of outputDir]
    by (simp add: generatePages_append)
  from main_generate_pages_failed [OF assms(1) gp] gp show ?thesis
    by simp
qed

theorem missing_template_fails_fast_witness:
  "fst (main_generate env0 cfg_three ''t'' ''out'' [''index'', ''contact'', ''about''] [] fs_two)
     = Fatal (FatalPages (ErrParsePage ''contact'' (NotExist ''t/pages/contact.html'')))
   \<and> snd (main_generate env0 cfg_three ''t'' ''out'' [''index'', ''contact'', ''about''] [] fs_two)
       ''out/index.html'' = Some ''<h1>Hi''
   \<and> snd (main_generate env0 cfg_three ''t'' ''out'' [''index'', ''contact'', ''about''] [] fs_two)
       ''out/about.html'' = None"
proof -
  have ca: "snd (copyAssets env0 (''t'' @ ''/pages'') ''out'' fs_two) = fs_two"
    by (simp add: copyAssets_def env0_def)
  have h1: "MkdirAllErr env0 ''out'' = None"
    by (simp add: env0_def)
  have h2: "generatePages env0 cfg_three (''t'' @ ''/pages'') ''out'' [''index'']
              (snd (copyAssets env0 (''t'' @ ''/pages'') ''out'' fs_two))
            = (NoError, fs_two(''out/index.html'' \<mapsto> ''<h1>Hi''))"
    unfolding ca by (simp add: run_defs fs_two_def cfg_three_def env0_def)
  have h3: "(fs_two(''out/index.html'' \<mapsto> ''<h1>Hi''))
              (Join env0 (''t'' @ ''/pages'') (''contact'' @ ''.html'')) = None
            \<or> (Base cfg_three \<noteq> None
                \<and> (fs_two(''out/index.html'' \<mapsto> ''<h1>Hi''))
                     (Join env0 (''t'' @ ''/pages'') ''base.html'') = None)"
    by (simp add: fs_two_def env0_def)
  from missing_template_fails_fast [OF h1 h2 h3, of "[''about'']" "[]"]
  show ?thesis
    by (simp add: parseError_def cfg_three_def env0_def fs_two_def)
qed

section \<open>Errors of the asset copy\<close>

text \<open>
  C8. An error of the asset copy is not fatal: with an assets folder in the template and
  \<^verbatim>\<open>out/assets\<close> impossible to create, the walk stops with the error of \<^verbatim>\<open>MkdirAll\<close>,
  \<^verbatim>\<open>copyAssets\<close> drops it and returns nil, and \<^verbatim>\<open>main\<close> goes on to render the pages and
  ends in success with \<^verbatim>\<open>logo.png\<close> not copied. The check of the result of \<^verbatim>\<open>copyAssets\<close> in
  \<^verbatim>\<open>main\<close> can never fire.
\<close>

theorem asset_copy_error_is_dropped:
  "walkDir env_assets ''t/pages/assets'' ''out/assets'' (WalkEntries env_assets ''t/pages/assets'')
       fs_assets = (Some (LibError ''not a directory''), fs_assets)
   \<and> copyAssets env_assets ''t/pages'' ''out'' fs_assets = (None, fs_assets)
   \<and> fst (main_generate env_assets cfg_index ''t'' ''out'' [''index''] [] fs_assets) = Success
   \<and> snd (main_generate env_assets cfg_index ''t'' ''out'' [''index''] [] fs_assets)
       ''out/assets/logo.png'' = None
   \<and> snd (main_generate env_assets cfg_index ''t'' ''out'' [''index''] [] fs_assets)
       ''out/index.html'' = Some ''<h1>Hi''"
  by (simp add: run_defs env_assets_def env0_def cfg_index_def fs_assets_def)

section \<open>A failing execution leaves its output file\<close>

lemma renderPage_exec_failed:
  assumes "ParseFiles E fs (templateFiles E config td p) = Inr t"
    and "CreateErr E (pageOutputFile E od p) = None"
    and "execPage E (Base config) t (index (Pages config) p) = (out, Some err)"
  shows "renderPage E config td od p fs
           = (Failed (ErrExecPage p err), fs(pageOutputFile E od p \<mapsto> out))"
  using assms by (simp add: renderPage_def write_after_create)

lemma renderItems_exec_failed:
  assumes "fmlookup m ''output_file'' = Some (VStr name)"
    and "CreateErr E (Join E od name) = None"
    and "execItem E base t (VMap m) = (out, Some err)"
  shows "renderItems E base od t (VMap m # rest) fs
           = (Failed (ErrExecItem name err), fs(Join E od name \<mapsto> out))"
  using assms by (simp add: write_after_create)

text \<open>
  C10. When the templates of a page parse, its output file can be created and the
  execution then fails, the run ends fatally with the execution error and the output
  file is on disk, holding the bytes written before the error. The same holds for an
  item of a collection whose execution fails. (The state before the failing page or item
  is the one the pages, collections and items before it left.)
\<close>

theorem exec_failure_leaves_output_file:
  "(MkdirAllErr E outputDir = None
    \<and> generatePages E config (templateDir @ ''/pages'') outputDir pre
         (snd (copyAssets E (templateDir @ ''/pages'') outputDir fs)) = (NoError, fs1)
    \<and> ParseFiles E fs1 (templateFiles E config (templateDir @ ''/pages'') p) = Inr t
    \<and> CreateErr E (pageOutputFile E outputDir p) = None
    \<and> execPage E (Base config) t (index (Pages config) p) = (out, Some err)
    \<longrightarrow> main_generate E config templateDir outputDir (pre @ p # rest) collectionOrder fs
          = (Fatal (FatalPages (ErrExecPage p err)), fs1(pageOutputFile E outputDir p \<mapsto> out)))
   \<and>
   (MkdirAllErr E outputDir = None
    \<and> generatePages E config (templateDir @ ''/pages'') outputDir pageOrder
         (snd (copyAssets E (templateDir @ ''/pages'') outputDir fs)) = (NoError, fs2)
    \<and> Collections config = Some cs
    \<and> collectionsLoop E config (templateDir @ ''/pages'') outputDir cs cpre fs2 = (NoError, fs3)
    \<and> index cs g = VMap gm
    \<and> index gm ''items'' = VList (ipre @ VMap m # irest)
    \<and> ParseFiles E fs3 (templateFiles E config (templateDir @ ''/pages'') g) = Inr t'
    \<and> renderItems E (Base config) outputDir t' ipre fs3 = (NoError, fs4)
    \<and> fmlookup m ''output_file'' = Some (VStr name)
    \<and> CreateErr E (Join E outputDir name) = None
    \<and> execItem E (Base config) t' (VMap m) = (out', Some err')
    \<longrightarrow> main_generate E config templateDir outputDir pageOrder (cpre @ g # crest) fs
          = (Fatal (FatalCollections (ErrExecItem name err')),
             fs4(Join E outputDir name \<mapsto> out')))"
proof (intro conjI impI)
  let ?td = "templateDir @ ''/pages''"
  assume a: "MkdirAllErr E outputDir = None
    \<and> generatePages E config ?td outputDir pre (snd (copyAssets E ?td outputDir fs)) = (NoError, fs1)
    \<and> ParseFiles E fs1 (templateFiles E config ?td p) = Inr t
    \<and> CreateErr E (pageOutputFile E outputDir p) = None
    \<and> execPage E (Base config) t (index (Pages config) p) = (out, Some err)"
  then have "renderPage E config ?td outputDir p fs1
               = (Failed (ErrExecPage p err), fs1(pageOutputFile E outputDir p \<mapsto> out))"
    by (simp add: renderPage_exec_failed)
  with a have "generatePages E config ?td outputDir (pre @ p # rest)
                 (snd (copyAssets E ?td outputDir fs))
               = (Failed (ErrExecPage p err), fs1(pageOutputFile E outputDir p \<mapsto> out))"
    by (simp add: generatePages_append)
  with a show "main_generate E config templateDir outputDir (pre @ p # rest) collectionOrder fs
          = (Fatal (FatalPages (ErrExecPage p err)), fs1(pageOutputFile E outputDir p \<mapsto> out))"
    by (simp add: main_generate_pages_failed)
next
  let ?td = "templateDir @ ''/pages''"
  assume a: "MkdirAllErr E outputDir = None
    \<and> generatePages E config ?td outputDir pageOrder (snd (copyAssets E ?td outputDir fs))
        = (NoError, fs2)
    \<and> Collections config = Some cs
    \<and> collectionsLoop E config ?td outputDir cs cpre fs2 = (NoError, fs3)
    \<and> index cs g = VMap gm
    \<and> index gm ''items'' = VList (ipre @ VMap m # irest)
    \<and> ParseFiles E fs3 (templateFiles E config ?td g) = Inr t'
    \<and> renderItems E (Base config) outputDir t' ipre fs3 = (NoError, fs4)
    \<and> fmlookup m ''output_file'' = Some (VStr name)
    \<and> CreateErr E (Join E outputDir name) = None
    \<and> execItem E (Base config) t' (VMap m) = (out', Some err')"
  then have "renderItems E (Base config) outputDir t' (ipre @ VMap m # irest) fs3
               = (Failed (ErrExecItem name err'), fs4(Join E outputDir name \<mapsto> out'))"
    by (simp add: renderItems_append renderItems_exec_failed del: renderItems.simps)
  with a have "renderCollection E config ?td outputDir g (index cs g) fs3
               = (Failed (ErrExecItem name err'), fs4(Join E outputDir name \<mapsto> out'))"
    by (simp add: renderCollection_def)
  with a have "generateCollections E config ?td outputDir (cpre @ g # crest) fs2
               = (Failed (ErrExecItem name err'), fs4(Join E outputDir name \<mapsto> out'))"
    by (simp add: generateCollections_def collectionsLoop_append)
  with a show "main_generate E config templateDir outputDir pageOrder (cpre @ g # crest) fs
          = (Fatal (FatalCollections (ErrExecItem name err')),
             fs4(Join E outputDir name \<mapsto> out'))"
    by (simp add: main_generate_collections_failed)
qed

theorem exec_failure_leaves_output_file_witness:
  "fst (main_generate env_execfail cfg_three ''t'' ''out'' [''index'', ''about'', ''contact''] [] fs_two)
     = Fatal (FatalPages (ErrExecPage ''about'' (LibError ''no title'')))
   \<and> snd (main_generate env_execfail cfg_three ''t'' ''out'' [''index'', ''about'', ''contact''] [] fs_two)
       ''out/about.html'' = Some ''<h2>''
   \<and> fst (main_generate env_execfail cfg_posts ''t'' ''out'' [''index''] [''posts''] fs_posts)
     = Fatal (FatalCollections (ErrExecItem ''post4.html'' (LibError ''no title'')))
   \<and> snd (main_generate env_execfail cfg_posts ''t'' ''out'' [''index''] [''posts''] fs_posts)
       ''out/post4.html'' = Some ''<p>''"
proof -
  have p: "MkdirAllErr env_execfail ''out'' = None
    \<and> generatePages env_execfail cfg_three (''t'' @ ''/pages'') ''out'' [''index'']
         (snd (copyAssets env_execfail (''t'' @ ''/pages'') ''out'' fs_two))
        = (NoError, fs_two(''out/index.html'' \<mapsto> ''<h1>Hi''))
    \<and> ParseFiles env_execfail (fs_two(''out/index.html'' \<mapsto> ''<h1>Hi''))
         (templateFiles env_execfail cfg_three (''t'' @ ''/pages'') ''about'')
        = Inr [(''t/pages/about.html'', ''<h2>'')]
    \<and> CreateErr env_execfail (pageOutputFile env_execfail ''out'' ''about'') = None
    \<and> execPage env_execfail (Base cfg_three) [(''t/pages/about.html'', ''<h2>'')]
         (index (Pages cfg_three) ''about'')
        = (''<h2>'', Some (LibError ''no title''))"
    by (simp add: run_defs env_execfail_def env0_def cfg_three_def fs_two_def)
  have c: "MkdirAllErr env_execfail ''out'' = None
    \<and> generatePages env_execfail cfg_posts (''t'' @ ''/pages'') ''out'' [''index'']
         (snd (copyAssets env_execfail (''t'' @ ''/pages'') ''out'' fs_posts))
        = (NoError, fs_posts(''out/index.html'' \<mapsto> ''<h1>Hi''))
    \<and> Collections cfg_posts = Some posts_only
    \<and> collectionsLoop env_execfail cfg_posts (''t'' @ ''/pages'') ''out'' posts_only []
         (fs_posts(''out/index.html'' \<mapsto> ''<h1>Hi''))
        = (NoError, fs_posts(''out/index.html'' \<mapsto> ''<h1>Hi''))
    \<and> index posts_only ''posts'' = VMap posts_items
    \<and> index posts_items ''items''
        = VList ([post1] @ VMap (fmap_of_list [(''output_file'', VStr ''post4.html'')]) # [post3])
    \<and> ParseFiles env_execfail (fs_posts(''out/index.html'' \<mapsto> ''<h1>Hi''))
         (templateFiles env_execfail cfg_posts (''t'' @ ''/pages'') ''posts'')
        = Inr [(''t/pages/posts.html'', ''<p>'')]
    \<and> renderItems env_execfail (Base cfg_posts) ''out'' [(''t/pages/posts.html'', ''<p>'')] [post1]
         (fs_posts(''out/index.html'' \<mapsto> ''<h1>Hi''))
        = (NoError, fs_posts(''out/index.html'' \<mapsto> ''<h1>Hi'', ''out/post1.html'' \<mapsto> ''<p>A''))
    \<and> fmlookup (fmap_of_list [(''output_file'', VStr ''post4.html'')]) ''output_file''
        = Some (VStr ''post4.html'')
    \<and> CreateErr env_execfail (Join env_execfail ''out'' ''post4.html'') = None
    \<and> execItem env_execfail (Base cfg_posts) [(''t/pages/posts.html'', ''<p>'')]
         (VMap (fmap_of_list [(''output_file'', VStr ''post4.html'')]))
        = (''<p>'', Some (LibError ''no title''))"
    by (simp add: run_defs item_defs env_execfail_def env0_def cfg_posts_def fs_posts_def)
  from exec_failure_leaves_output_file [THEN conjunct1, rule_format, OF p, of "[''contact'']" "[]"]
       exec_failure_leaves_output_file [THEN conjunct2, rule_format, OF c, of "[]"]
  show ?thesis
    by (simp add: env_execfail_def env0_def pageOutputFile_def)
qed

section \<open>Enumeration order\<close>

text \<open>Both loops are instances of the loop over steps.\<close>

lemma generatePages_steps:
  "generatePages E config td od ks fs = steps (renderPage E config td od) ks fs"
  by (induction ks arbitrary: fs) (auto split: prod.splits outcome.splits)

lemma collectionsLoop_steps:
  "collectionsLoop E config td od cs ks fs
     = steps (\<lambda>g. renderCollection E config td od g (index cs g)) ks fs"
  by (induction ks arbitrary: fs) (auto split: prod.splits outcome.splits)

text \<open>
  Steps that each add a fixed map of writes to the disk, as long as the files they read
  are as on \<open>fs0\<close>, and whose writes touch none of these files: the loop returns nil
  exactly when every step does, and the disk is then the fold of the writes.
\<close>

lemma steps_closed:
  assumes loc: "\<And>k fs. k \<in> set ks \<Longrightarrow> (\<forall>x\<in>T k. fs x = fs0 x) \<Longrightarrow> f k fs = (Oc k, fs ++ Wm k)"
    and noread: "\<And>j k. j \<in> set ks \<Longrightarrow> k \<in> set ks \<Longrightarrow> dom (Wm j) \<inter> T k = {}"
    and agree: "\<forall>k\<in>set ks. \<forall>x\<in>T k. fs x = fs0 x"
  shows "steps f ks fs = (NoError, fs')
           \<longleftrightarrow> (\<forall>k\<in>set ks. Oc k = NoError) \<and> fs' = fold (\<lambda>k s. s ++ Wm k) ks fs"
  using assms
proof (induction ks arbitrary: fs)
  case Nil
  then show ?case by auto
next
  case (Cons k ks)
  have step: "f k fs = (Oc k, fs ++ Wm k)"
    using Cons.prems(1) [of k fs] Cons.prems(3) by simp
  show ?case
  proof (cases "Oc k = NoError")
    case True
    have agree': "\<forall>q\<in>set ks. \<forall>x\<in>T q. (fs ++ Wm k) x = fs0 x"
    proof (intro ballI)
      fix q x assume q: "q \<in> set ks" and x: "x \<in> T q"
      from Cons.prems(2) [of k q] q x have "x \<notin> dom (Wm k)" by auto
      then have "(fs ++ Wm k) x = fs x" by (simp add: map_add_dom_app_simps)
      with Cons.prems(3) q x show "(fs ++ Wm k) x = fs0 x" by simp
    qed
    have "steps f ks (fs ++ Wm k) = (NoError, fs')
            \<longleftrightarrow> (\<forall>k\<in>set ks. Oc k = NoError) \<and> fs' = fold (\<lambda>k s. s ++ Wm k) ks (fs ++ Wm k)"
      by (rule Cons.IH) (use Cons.prems agree' in auto)
    with True step show ?thesis by simp
  next
    case False
    with step show ?thesis by (cases "Oc k") auto
  qed
qed

text \<open>
  If, moreover, different steps write different files, the order of the steps does not
  matter to a run that returns nil.
\<close>

lemma steps_permute:
  assumes loc: "\<And>k. k \<in> set ks \<Longrightarrow>
                  \<exists>r w. dom w \<subseteq> W k \<and> (\<forall>fs. (\<forall>x\<in>T k. fs x = fs0 x) \<longrightarrow> f k fs = (r, fs ++ w))"
    and disj: "\<And>j k. j \<in> set ks \<Longrightarrow> k \<in> set ks \<Longrightarrow> j \<noteq> k \<Longrightarrow> W j \<inter> W k = {}"
    and noread: "\<And>j k. j \<in> set ks \<Longrightarrow> k \<in> set ks \<Longrightarrow> W j \<inter> T k = {}"
    and perm: "mset ks = mset ks'"
    and ok: "steps f ks fs0 = (NoError, fs1)"
  shows "steps f ks' fs0 = (NoError, fs1)"
proof -
  have ex: "\<forall>k\<in>set ks. \<exists>ow. dom (snd ow) \<subseteq> W k
          \<and> (\<forall>fs. (\<forall>x\<in>T k. fs x = fs0 x) \<longrightarrow> f k fs = (fst ow, fs ++ snd ow))"
    using loc by fastforce
  obtain F where F: "\<forall>k\<in>set ks. dom (snd (F k)) \<subseteq> W k
          \<and> (\<forall>fs. (\<forall>x\<in>T k. fs x = fs0 x) \<longrightarrow> f k fs = (fst (F k), fs ++ snd (F k)))"
    using bchoice [OF ex] by blast
  define Oc where "Oc k = fst (F k)" for k
  define Wm where "Wm k = snd (F k)" for k
  have sets: "set ks' = set ks"
    using perm by (metis mset_eq_setD)
  have l: "f k fs = (Oc k, fs ++ Wm k)" if "k \<in> set ks" "\<forall>x\<in>T k. fs x = fs0 x" for k fs
    using F that by (simp add: Oc_def Wm_def)
  have d: "dom (Wm k) \<subseteq> W k" if "k \<in> set ks" for k
    using F that by (simp add: Wm_def)
  have nr: "dom (Wm j) \<inter> T k = {}" if "j \<in> set ks" "k \<in> set ks" for j k
    using d [OF that(1)] noread [OF that] by auto
  have c1: "steps f ks fs0 = (NoError, fs1)
           \<longleftrightarrow> (\<forall>k\<in>set ks. Oc k = NoError) \<and> fs1 = fold (\<lambda>k s. s ++ Wm k) ks fs0"
    by (rule steps_closed [where T = T]) (use l nr in auto)
  have c2: "steps f ks' fs0 = (NoError, fs1)
           \<longleftrightarrow> (\<forall>k\<in>set ks'. Oc k = NoError) \<and> fs1 = fold (\<lambda>k s. s ++ Wm k) ks' fs0"
    by (rule steps_closed [where T = T]) (use l nr sets in auto)
  have comm: "(\<lambda>s. s ++ Wm j) \<circ> (\<lambda>s. s ++ Wm k) = (\<lambda>s. s ++ Wm k) \<circ> (\<lambda>s. s ++ Wm j)"
    if "j \<in> set ks" "k \<in> set ks" for j k
  proof (cases "j = k")
    case True
    then show ?thesis by simp
  next
    case False
    with disj [OF that] d [OF that(1)] d [OF that(2)] have "dom (Wm j) \<inter> dom (Wm k) = {}"
      by auto
    then have "Wm k ++ Wm j = Wm j ++ Wm k"
      by (metis map_add_comm)
    then have "s ++ Wm k ++ Wm j = s ++ Wm j ++ Wm k" for s
      by (metis map_add_assoc)
    then show ?thesis by (auto simp: fun_eq_iff)
  qed
  have "fold (\<lambda>k s. s ++ Wm k) ks = fold (\<lambda>k s. s ++ Wm k) ks'"
    by (rule fold_multiset_equiv) (use comm perm in auto)
  with c1 c2 ok sets show ?thesis by simp
qed

text \<open>
  The step of a page, and the step of a collection, read the disk at their template
  files only and write at their output paths only.
\<close>

lemma parseFiles_cong:
  "(\<forall>x\<in>set names. fs x = fs0 x) \<Longrightarrow> parseFiles E fs names = parseFiles E fs0 names"
  by (induction names) (auto split: option.splits sum.splits)

lemma ParseFiles_cong:
  "(\<forall>x\<in>set names. fs x = fs0 x) \<Longrightarrow> ParseFiles E fs names = ParseFiles E fs0 names"
  by (simp add: ParseFiles_def parseFiles_cong)

lemma renderPage_local:
  "\<exists>r w. dom w \<subseteq> {pageOutputFile E od p}
        \<and> (\<forall>fs. (\<forall>x\<in>set (templateFiles E config td p). fs x = fs0 x)
               \<longrightarrow> renderPage E config td od p fs = (r, fs ++ w))"
proof (cases "ParseFiles E fs0 (templateFiles E config td p)")
  case (Inl err)
  then have "\<forall>fs. (\<forall>x\<in>set (templateFiles E config td p). fs x = fs0 x)
               \<longrightarrow> renderPage E config td od p fs = (Failed (ErrParsePage p err), fs ++ Map.empty)"
    by (auto simp: renderPage_def dest!: ParseFiles_cong [where E = E])
  then show ?thesis by (metis dom_empty empty_subsetI)
next
  case (Inr t)
  show ?thesis
  proof (cases "CreateErr E (pageOutputFile E od p)")
    case (Some err)
    with Inr have "\<forall>fs. (\<forall>x\<in>set (templateFiles E config td p). fs x = fs0 x)
               \<longrightarrow> renderPage E config td od p fs
                    = (Failed (ErrCreate (pageOutputFile E od p) err), fs ++ Map.empty)"
      by (auto simp: renderPage_def dest!: ParseFiles_cong [where E = E])
    then show ?thesis by (metis dom_empty empty_subsetI)
  next
    case None
    let ?r = "execPage E (Base config) t (index (Pages config) p)"
    let ?w = "[pageOutputFile E od p \<mapsto> fst ?r]"
    let ?o = "case snd ?r of Some err \<Rightarrow> Failed (ErrExecPage p err) | None \<Rightarrow> NoError"
    from Inr None have "\<forall>fs. (\<forall>x\<in>set (templateFiles E config td p). fs x = fs0 x)
               \<longrightarrow> renderPage E config td od p fs = (?o, fs ++ ?w)"
      by (auto simp: renderPage_def write_after_create split: option.splits
               dest!: ParseFiles_cong [where E = E])
    moreover have "dom ?w \<subseteq> {pageOutputFile E od p}" by simp
    ultimately show ?thesis by blast
  qed
qed

lemma renderItems_local:
  "\<exists>r w. dom w \<subseteq> set (itemOutputPaths E od items)
        \<and> (\<forall>fs. renderItems E base od t items fs = (r, fs ++ w))"
proof (induction items)
  case Nil
  have "\<forall>fs. renderItems E base od t [] fs = (NoError, fs ++ Map.empty)" by simp
  then show ?case by (metis dom_empty empty_subsetI)
next
  case (Cons item rest)
  then obtain r w where w: "dom w \<subseteq> set (itemOutputPaths E od rest)"
    and rest: "\<And>fs. renderItems E base od t rest fs = (r, fs ++ w)"
    by blast
  have panic: "\<forall>fs. renderItems E base od t (item # rest) fs = (Panicked, fs ++ Map.empty)"
    if "\<not> isMapping item"
    using that by (cases item) (simp_all add: isMapping_def)
  show ?case
  proof (cases item)
    case (VMap m)
    show ?thesis
    proof (cases "\<exists>name. fmlookup m ''output_file'' = Some (VStr name)")
      case False
      then have "\<forall>fs. renderItems E base od t (item # rest) fs = (r, fs ++ w)"
        using VMap rest by (auto split: option.splits val.splits)
      moreover from False have "itemOutputPaths E od (item # rest) = itemOutputPaths E od rest"
        using VMap by (auto split: option.splits val.splits)
      ultimately show ?thesis using w by metis
    next
      case True
      then obtain name where name: "fmlookup m ''output_file'' = Some (VStr name)" by blast
      let ?path = "Join E od name"
      have paths: "itemOutputPaths E od (item # rest) = ?path # itemOutputPaths E od rest"
        using VMap name by simp
      show ?thesis
      proof (cases "CreateErr E ?path")
        case (Some err)
        then have "\<forall>fs. renderItems E base od t (item # rest) fs
                     = (Failed (ErrCreate ?path err), fs ++ Map.empty)"
          using VMap name by simp
        then show ?thesis by (metis dom_empty empty_subsetI)
      next
        case None
        let ?x = "execItem E base t item"
        show ?thesis
        proof (cases "snd ?x")
          case (Some err)
          then have "\<forall>fs. renderItems E base od t (item # rest) fs
                       = (Failed (ErrExecItem name err), fs ++ [?path \<mapsto> fst ?x])"
            using VMap name None by (simp add: write_after_create)
          moreover have "dom [?path \<mapsto> fst ?x] \<subseteq> set (itemOutputPaths E od (item # rest))"
            unfolding paths by simp
          ultimately show ?thesis by blast
        next
          case None': None
          have "\<forall>fs. renderItems E base od t (item # rest) fs
                       = (r, fs ++ ([?path \<mapsto> fst ?x] ++ w))"
            using VMap name None None' rest by (simp add: write_after_create)
          moreover have "dom ([?path \<mapsto> fst ?x] ++ w) \<subseteq> set (itemOutputPaths E od (item # rest))"
            unfolding paths using w by auto
          ultimately show ?thesis by blast
        qed
      qed
    qed
  qed (use panic in \<open>auto simp: isMapping_def intro!: exI [of _ Map.empty]\<close>)
qed

lemma renderCollection_local:
  "\<exists>r w. dom w \<subseteq> set (collectionOutputPaths E od d)
        \<and> (\<forall>fs. (\<forall>x\<in>set (templateFiles E config td g). fs x = fs0 x)
               \<longrightarrow> renderCollection E config td od g d fs = (r, fs ++ w))"
proof -
  have trivial: ?thesis if "\<forall>fs. renderCollection E config td od g d fs = (r, fs)" for r
  proof -
    from that have "\<forall>fs. renderCollection E config td od g d fs = (r, fs ++ Map.empty)" by simp
    then show ?thesis by (metis dom_empty empty_subsetI)
  qed
  show ?thesis
  proof (cases "\<exists>m itemsList. d = VMap m \<and> index m ''items'' = VList itemsList")
    case False
    then have "(\<forall>fs. renderCollection E config td od g d fs = (Panicked, fs))
             \<or> (\<forall>fs. renderCollection E config td od g d fs = (NoError, fs))"
      by (cases d) (auto simp: renderCollection_def split: val.splits)
    then show ?thesis using trivial by blast
  next
    case True
    then obtain m itemsList where d: "d = VMap m" and items: "index m ''items'' = VList itemsList"
      by blast
    have paths: "collectionOutputPaths E od d = itemOutputPaths E od itemsList"
      by (simp add: collectionOutputPaths_def d items)
    show ?thesis
    proof (cases "ParseFiles E fs0 (templateFiles E config td g)")
      case (Inl err)
      then have "\<forall>fs. (\<forall>x\<in>set (templateFiles E config td g). fs x = fs0 x)
               \<longrightarrow> renderCollection E config td od g d fs
                     = (Failed (ErrParseCollection g err), fs ++ Map.empty)"
        by (auto simp: renderCollection_def d items dest!: ParseFiles_cong [where E = E])
      then show ?thesis by (metis dom_empty empty_subsetI)
    next
      case (Inr t)
      from renderItems_local [of E od itemsList "Base config" t]
      obtain r w where w: "dom w \<subseteq> set (itemOutputPaths E od itemsList)"
        and r: "\<And>fs. renderItems E (Base config) od t itemsList fs = (r, fs ++ w)"
        by blast
      from Inr r have "\<forall>fs. (\<forall>x\<in>set (templateFiles E config td g). fs x = fs0 x)
               \<longrightarrow> renderCollection E config td od g d fs = (r, fs ++ w)"
        by (auto simp: renderCollection_def d items dest!: ParseFiles_cong [where E = E])
      with w paths show ?thesis by metis
    qed
  qed
qed

lemma enumerates_mset:
  assumes "enumerates ks m" "enumerates ks' m"
  shows "mset ks = mset ks'"
proof -
  from assms have "fset_of_list ks = fset_of_list ks'"
    by (simp add: enumerates_def)
  then have "set ks = set ks'"
    by (metis fset_of_list.rep_eq)
  with assms show ?thesis
    by (simp add: enumerates_def set_eq_iff_mset_eq_distinct)
qed

lemma generatePages_permute:
  assumes "mset ks = mset ks'"
    and "inj_on (pageOutputFile E od) (set ks)"
    and "\<forall>p\<in>set ks. \<forall>q\<in>set ks. pageOutputFile E od p \<notin> set (templateFiles E config td q)"
    and "generatePages E config td od ks fs = (NoError, fs1)"
  shows "generatePages E config td od ks' fs = (NoError, fs1)"
  unfolding generatePages_steps
proof (rule steps_permute [where W = "\<lambda>p. {pageOutputFile E od p}"
                              and T = "\<lambda>p. set (templateFiles E config td p)" and ks = ks])
  show "\<exists>r w. dom w \<subseteq> {pageOutputFile E od k}
          \<and> (\<forall>s. (\<forall>x\<in>set (templateFiles E config td k). s x = fs x)
                 \<longrightarrow> renderPage E config td od k s = (r, s ++ w))" for k
    by (rule renderPage_local)
  show "{pageOutputFile E od j} \<inter> {pageOutputFile E od k} = {}"
    if "j \<in> set ks" "k \<in> set ks" "j \<noteq> k" for j k
    using assms(2) that by (auto dest: inj_onD)
  show "{pageOutputFile E od j} \<inter> set (templateFiles E config td k) = {}"
    if "j \<in> set ks" "k \<in> set ks" for j k
    using assms(3) that by auto
  show "mset ks = mset ks'" by fact
  show "steps (renderPage E config td od) ks fs = (NoError, fs1)"
    using assms(4) by (simp add: generatePages_steps)
qed

lemma generateCollections_permute:
  assumes "mset ks = mset ks'"
    and "\<forall>g\<in>set ks. \<forall>h\<in>set ks. g \<noteq> h \<longrightarrow>
           set (collectionOutputPaths E od (index (collections_of config) g))
           \<inter> set (collectionOutputPaths E od (index (collections_of config) h)) = {}"
    and "\<forall>g\<in>set ks. \<forall>h\<in>set ks.
           set (collectionOutputPaths E od (index (collections_of config) g))
           \<inter> set (templateFiles E config td h) = {}"
    and "generateCollections E config td od ks fs = (NoError, fs1)"
  shows "generateCollections E config td od ks' fs = (NoError, fs1)"
proof (cases "Collections config")
  case None
  with assms(4) show ?thesis by (simp add: generateCollections_def)
next
  case (Some cs)
  then have cs: "collections_of config = cs" by (simp add: collections_of_def)
  have "steps (\<lambda>g. renderCollection E config td od g (index cs g)) ks' fs = (NoError, fs1)"
  proof (rule steps_permute [where W = "\<lambda>g. set (collectionOutputPaths E od (index cs g))"
                              and T = "\<lambda>g. set (templateFiles E config td g)" and ks = ks])
    show "\<exists>r w. dom w \<subseteq> set (collectionOutputPaths E od (index cs k))
          \<and> (\<forall>s. (\<forall>x\<in>set (templateFiles E config td k). s x = fs x)
                 \<longrightarrow> renderCollection E config td od k (index cs k) s = (r, s ++ w))" for k
      by (rule renderCollection_local)
    show "set (collectionOutputPaths E od (index cs j)) \<inter> set (collectionOutputPaths E od (index cs k)) = {}"
      if "j \<in> set ks" "k \<in> set ks" "j \<noteq> k" for j k
      using assms(2) that cs by simp
    show "set (collectionOutputPaths E od (index cs j)) \<inter> set (templateFiles E config td k) = {}"
      if "j \<in> set ks" "k \<in> set ks" for j k
      using assms(3) that cs by simp
    show "mset ks = mset ks'" by fact
    show "steps (\<lambda>g. renderCollection E config td od g (index cs g)) ks fs = (NoError, fs1)"
      using assms(4) Some by (simp add: generateCollections_def collectionsLoop_steps)
  qed
  with Some show ?thesis
    by (simp add: generateCollections_def collectionsLoop_steps)
qed

text \<open>
  C9, as stated, fails. Two collections that each have an item with the output file
  \<^verbatim>\<open>latest.html\<close>: both enumeration orders of the collections give a successful run,
  and \<^verbatim>\<open>out/latest.html\<close> holds the item of whichever collection came last.
\<close>

theorem order_dependence_counterexample:
  "enumerates [''news'', ''posts''] (collections_of cfg_clash)
   \<and> enumerates [''posts'', ''news''] (collections_of cfg_clash)
   \<and> fst (main_generate env0 cfg_clash ''t'' ''out'' [] [''news'', ''posts''] fs_clash) = Success
   \<and> fst (main_generate env0 cfg_clash ''t'' ''out'' [] [''posts'', ''news''] fs_clash) = Success
   \<and> snd (main_generate env0 cfg_clash ''t'' ''out'' [] [''news'', ''posts''] fs_clash) ''out/latest.html''
       = Some ''<p>P''
   \<and> snd (main_generate env0 cfg_clash ''t'' ''out'' [] [''posts'', ''news''] fs_clash) ''out/latest.html''
       = Some ''<n>N''"
  by (auto simp: enumerates_def collections_of_def cfg_clash_def fs_clash_def env0_def run_defs)

text \<open>
  C9, amended. Take a successful run in which different pages have different output
  files, different collections have no output file in common, and no output file is one
  of the template files the run reads. Then the run along any other enumeration of the
  pages and of the collections is successful too and leaves the same files with the same
  contents. Within a collection the items are rendered in the order of the sequence:
  rendering a sequence is rendering its front part, then the rest on the disk the front
  part left.
\<close>

theorem order_independent_when_outputs_distinct:
  assumes "enumerates pageOrder (Pages config)"
    and "enumerates pageOrder' (Pages config)"
    and "enumerates collectionOrder (collections_of config)"
    and "enumerates collectionOrder' (collections_of config)"
    and "inj_on (pageOutputFile E outputDir) (set pageOrder)"
    and "\<forall>p\<in>set pageOrder. \<forall>q\<in>set pageOrder.
           pageOutputFile E outputDir p \<notin> set (templateFiles E config (templateDir @ ''/pages'') q)"
    and "\<forall>g\<in>set collectionOrder. \<forall>h\<in>set collectionOrder. g \<noteq> h \<longrightarrow>
           set (collectionOutputPaths E outputDir (index (collections_of config) g))
           \<inter> set (collectionOutputPaths E outputDir (index (collections_of config) h)) = {}"
    and "\<forall>g\<in>set collectionOrder. \<forall>h\<in>set collectionOrder.
           set (collectionOutputPaths E outputDir (index (collections_of config) g))
           \<inter> set (templateFiles E config (templateDir @ ''/pages'') h) = {}"
    and "main_generate E config templateDir outputDir pageOrder collectionOrder fs = (Success, fs')"
  shows "main_generate E config templateDir outputDir pageOrder' collectionOrder' fs = (Success, fs')
         \<and> renderItems E base outputDir t (xs @ ys) s =
             (case renderItems E base outputDir t xs s of
                (NoError, s') \<Rightarrow> renderItems E base outputDir t ys s'
              | r \<Rightarrow> r)"
proof -
  let ?td = "templateDir @ ''/pages''"
  from assms(9) obtain fs2 fs3 where mk: "MkdirAllErr E outputDir = None"
    and gp: "generatePages E config ?td outputDir pageOrder (snd (copyAssets E ?td outputDir fs))
               = (NoError, fs2)"
    and gc: "generateCollections E config ?td outputDir collectionOrder fs2 = (NoError, fs3)"
    and fs': "fs' = RemoveAll E templateDir fs3"
    unfolding main_generate_success_iff by blast
  have gp': "generatePages E config ?td outputDir pageOrder' (snd (copyAssets E ?td outputDir fs))
               = (NoError, fs2)"
    by (rule generatePages_permute [OF enumerates_mset [OF assms(1,2)] assms(5,6) gp])
  have gc': "generateCollections E config ?td outputDir collectionOrder' fs2 = (NoError, fs3)"
    by (rule generateCollections_permute [OF enumerates_mset [OF assms(3,4)] assms(7,8) gc])
  from mk gp' gc' fs' have "main_generate E config templateDir outputDir pageOrder' collectionOrder' fs
                              = (Success, fs')"
    unfolding main_generate_success_iff by blast
  then show ?thesis
    by (simp add: renderItems_append del: renderItems.simps)
qed

theorem order_independent_when_outputs_distinct_witness:
  "main_generate env0 cfg_site ''t'' ''out'' [''about'', ''index''] [''drafts'', ''news'', ''posts''] fs_site
     = (Success, snd (main_generate env0 cfg_site ''t'' ''out'' [''index'', ''about'']
                        [''posts'', ''news'', ''drafts''] fs_site))
   \<and> snd (main_generate env0 cfg_site ''t'' ''out'' [''about'', ''index''] [''drafts'', ''news'', ''posts''] fs_site)
       ''out/post1.html'' = Some ''<b><p>C''
   \<and> snd (main_generate env0 cfg_site ''t'' ''out'' [''about'', ''index''] [''drafts'', ''news'', ''posts''] fs_site)
       ''out/index.html'' = Some ''<b><i>Hi''"
proof -
  let ?fs' = "snd (main_generate env0 cfg_site ''t'' ''out'' [''index'', ''about'']
                        [''posts'', ''news'', ''drafts''] fs_site)"
  have h1: "enumerates [''index'', ''about''] (Pages cfg_site)"
    by (auto simp: enumerates_def cfg_site_def)
  have h2: "enumerates [''about'', ''index''] (Pages cfg_site)"
    by (auto simp: enumerates_def cfg_site_def)
  have h3: "enumerates [''posts'', ''news'', ''drafts''] (collections_of cfg_site)"
    by (auto simp: enumerates_def collections_of_def cfg_site_def)
  have h4: "enumerates [''drafts'', ''news'', ''posts''] (collections_of cfg_site)"
    by (auto simp: enumerates_def collections_of_def cfg_site_def)
  have h5: "inj_on (pageOutputFile env0 ''out'') (set [''index'', ''about''])"
    by (simp add: pageOutputFile_def env0_def)
  have h6: "\<forall>p\<in>set [''index'', ''about'']. \<forall>q\<in>set [''index'', ''about''].
           pageOutputFile env0 ''out'' p \<notin> set (templateFiles env0 cfg_site (''t'' @ ''/pages'') q)"
    by (simp add: pageOutputFile_def templateFiles_def site_defs)
  have h7: "\<forall>g\<in>set [''posts'', ''news'', ''drafts'']. \<forall>h\<in>set [''posts'', ''news'', ''drafts'']. g \<noteq> h \<longrightarrow>
           set (collectionOutputPaths env0 ''out'' (index (collections_of cfg_site) g))
           \<inter> set (collectionOutputPaths env0 ''out'' (index (collections_of cfg_site) h)) = {}"
    by (simp add: collectionOutputPaths_def collections_of_def index_def fmlookup_of_list site_defs)
  have h8: "\<forall>g\<in>set [''posts'', ''news'', ''drafts'']. \<forall>h\<in>set [''posts'', ''news'', ''drafts''].
           set (collectionOutputPaths env0 ''out'' (index (collections_of cfg_site) g))
           \<inter> set (templateFiles env0 cfg_site (''t'' @ ''/pages'') h) = {}"
    by (simp add: collectionOutputPaths_def collections_of_def index_def fmlookup_of_list
          templateFiles_def site_defs)
  have "fst (main_generate env0 cfg_site ''t'' ''out'' [''index'', ''about'']
                        [''posts'', ''news'', ''drafts''] fs_site) = Success"
    by (simp add: run_defs site_defs)
  then have h9: "main_generate env0 cfg_site ''t'' ''out'' [''index'', ''about'']
                        [''posts'', ''news'', ''drafts''] fs_site = (Success, ?fs')"
    by (simp add: prod_eq_iff)
  have v1: "?fs' ''out/post1.html'' = Some ''<b><p>C''"
    by (simp add: run_defs site_defs)
  have v2: "?fs' ''out/index.html'' = Some ''<b><i>Hi''"
    by (simp add: run_defs site_defs)
  from order_independent_when_outputs_distinct [OF h1 h2 h3 h4 h5 h6 h7 h8 h9]
  have "main_generate env0 cfg_site ''t'' ''out'' [''about'', ''index''] [''drafts'', ''news'', ''posts''] fs_site
          = (Success, ?fs')"
    by simp
  with v1 v2 show ?thesis by simp
qed

end
